theory Spec2Isabelle
  imports Main "HOL-Library.AList"
begin

section \<open>Data model\<close>

text \<open>
  The converter is one Python function, \<open>convert_google_to_bitwarden\<close>. It reads the
  rows of a \<open>csv.DictReader\<close>, groups them by their \<open>name\<close> field in a dictionary
  \<open>grouped_items\<close> and dumps the values of that dictionary as a JSON document.

  A Python \<open>str\<close> is modelled as a \<open>string\<close> whose characters are its code points
  (HOL's \<open>char\<close> covers the code points below 256). A value that is a \<open>str\<close> or
  \<open>None\<close> is a \<open>string option\<close>.

  A row of the reader is a dictionary from field names to cells; a cell is \<open>None\<close>
  when the line was shorter than the header.
\<close>

type_synonym row = "string \<rightharpoonup> string option"

text \<open>\<open>row.get(k)\<close>: \<open>None\<close> for a key that is absent, the cell otherwise.\<close>

definition row_get :: "row \<Rightarrow> string \<Rightarrow> string option" where
  "row_get row k = (case row k of None \<Rightarrow> None | Some v \<Rightarrow> v)"

text \<open>\<open>row.get(k, d)\<close>: the default only for a key that is absent.\<close>

definition row_get_default :: "row \<Rightarrow> string \<Rightarrow> string \<Rightarrow> string option" where
  "row_get_default row k d = (case row k of None \<Rightarrow> Some d | Some v \<Rightarrow> v)"

text \<open>Python's truth value of a \<open>str\<close> or \<open>None\<close>: false for \<open>None\<close> and for \<open>''\<close>.\<close>

definition truthy :: "string option \<Rightarrow> bool" where
  "truthy v = (case v of None \<Rightarrow> False | Some s \<Rightarrow> s \<noteq> [])"

text \<open>
  How \<open>csv.DictReader\<close> builds a row from the header and the cells of one line:
  \<open>dict(zip(fieldnames, cells))\<close>, then \<open>None\<close> for every field the line has no
  cell for (a later duplicate of a field name overwrites an earlier one). Cells beyond the
  header go under the key \<open>None\<close>, which the converter never reads.
\<close>

definition dict_reader_row :: "string list \<Rightarrow> string list \<Rightarrow> row" where
  "dict_reader_row fieldnames cells =
     foldl (\<lambda>d (k, v). d(k \<mapsto> v)) Map.empty
       (zip fieldnames (map Some cells @ replicate (length fieldnames - length cells) None))"

record uri_entry =
  uri :: string
  match :: "int option"

record login =
  login_uris :: "uri_entry list"
  login_username :: string
  login_password :: "string option"
  login_totp :: "string option"

record login_item =
  item_type :: int
  item_name :: string
  item_notes :: "string option"
  item_favorite :: bool
  item_login :: login
  item_fields :: "string list"

record output_document =
  encrypted :: bool
  folders :: "string list"
  items :: "login_item list"

text \<open>
  \<open>grouped_items\<close> is a Python dictionary: its keys are unique and keep the order in
  which they were first inserted. It is an association list, read with \<open>map_of\<close> and
  written with \<open>AList.update\<close>, which replaces the value of a key in place and puts a
  new key at the end.
\<close>

type_synonym grouped_items = "(string \<times> login_item) list"

section \<open>The conflict annotation\<close>

definition newline :: char where
  "newline = CHR 0x0A"

definition marker_text :: string where
  "marker_text = ''--- AUTO-MERGE WARNING ---''"

definition conflict_note :: "string \<Rightarrow> string \<Rightarrow> string" where
  "conflict_note url username =
     [newline, newline] @ marker_text @ [newline] @
     ''An entry for the URL below had different credentials and was not merged automatically:'' @ [newline] @
     ''URL: '' @ url @ [newline] @
     ''Username: '' @ username @ [newline]"

text \<open>
  \<open>str.strip()\<close> removes the leading and the trailing white space. Among the code
  points below 256, Python's white space is 9 to 13, 28 to 32, 133 and 160.
\<close>

definition py_isspace :: "char \<Rightarrow> bool" where
  "py_isspace c = ((of_char c :: nat) \<in> {9, 10, 11, 12, 13, 28, 29, 30, 31, 32, 133, 160})"

definition strip :: "string \<Rightarrow> string" where
  "strip s = rev (dropWhile py_isspace (rev (dropWhile py_isspace s)))"

section \<open>Processing one row\<close>

text \<open>The item a row creates when its name is not yet a key of \<open>grouped_items\<close>.\<close>

definition new_item :: "string \<Rightarrow> string \<Rightarrow> string \<Rightarrow> string option \<Rightarrow> string option \<Rightarrow> login_item" where
  "new_item name url username password note =
     \<lparr> item_type = 1,
       item_name = name,
       item_notes = (if truthy note then note else None),
       item_favorite = False,
       item_login = \<lparr> login_uris = [\<lparr> uri = url, match = None \<rparr>],
                      login_username = username,
                      login_password = password,
                      login_totp = None \<rparr>,
       item_fields = [] \<rparr>"

text \<open>
  The \<open>else\<close> branch of the loop body: the url is appended to the existing item, and
  when the credentials of the row differ from the stored ones the conflict note is added
  to the notes.
\<close>

definition merge_row :: "login_item \<Rightarrow> string \<Rightarrow> string \<Rightarrow> string option \<Rightarrow> login_item" where
  "merge_row existing_item url username password =
     (let appended = existing_item
            \<lparr> item_login := (item_login existing_item)
                \<lparr> login_uris := login_uris (item_login existing_item) @ [\<lparr> uri = url, match = None \<rparr>] \<rparr> \<rparr>
      in if login_username (item_login appended) \<noteq> username \<or>
            login_password (item_login appended) \<noteq> password
         then (if truthy (item_notes appended)
               then appended \<lparr> item_notes := Some (the (item_notes appended) @ conflict_note url username) \<rparr>
               else appended \<lparr> item_notes := Some (strip (conflict_note url username)) \<rparr>)
         else appended)"

text \<open>
  The body of \<open>for row in reader\<close>. Under the guard the three values are non-empty
  strings, so \<open>the\<close> reads them.
\<close>

definition process_row :: "row \<Rightarrow> grouped_items \<Rightarrow> grouped_items" where
  "process_row row grouped =
     (let name = row_get row ''name'';
          url = row_get row ''url'';
          username = row_get row ''username'';
          password = row_get row ''password'';
          note = row_get_default row ''note'' ''''
      in if \<not> truthy name \<or> \<not> truthy url \<or> \<not> truthy username then grouped
         else (case map_of grouped (the name) of
                 None \<Rightarrow>
                   AList.update (the name)
                     (new_item (the name) (the url) (the username) password note) grouped
               | Some existing_item \<Rightarrow>
                   AList.update (the name)
                     (merge_row existing_item (the url) (the username) password) grouped))"

text \<open>The loop over the rows the reader yields, from a given dictionary.\<close>

fun group_rows :: "row list \<Rightarrow> grouped_items \<Rightarrow> grouped_items" where
  "group_rows [] grouped = grouped"
| "group_rows (row # rest) grouped = group_rows rest (process_row row grouped)"

text \<open>The document that is dumped: \<open>list(grouped_items.values())\<close> under \<open>items\<close>.\<close>

definition bitwarden_output :: "grouped_items \<Rightarrow> output_document" where
  "bitwarden_output grouped = \<lparr> encrypted = False, folders = [], items = map snd grouped \<rparr>"

definition convert :: "row list \<Rightarrow> output_document" where
  "convert rows = bitwarden_output (group_rows rows [])"

section \<open>The whole run\<close>

text \<open>
  The function has four ways to fail, each printing its own message and calling
  \<open>sys.exit(1)\<close>: the header check (the message shows the expected headers and the
  headers found), \<open>FileNotFoundError\<close>, any other exception in the first \<open>try\<close>
  block (the input is opened and read, the rows are processed, warnings are printed),
  and any exception in the second \<open>try\<close> block (the output is opened and written, the
  success messages are printed). An exception that no handler catches, which is one
  raised by the first \<open>print\<close> of the function or by the \<open>print\<close> of a handler,
  ends the run with a traceback and status 1.
\<close>

datatype error =
    SchemaError "string list" "string list"
  | SourceUnavailableError
  | UnexpectedError
  | SinkWriteError
  | UncaughtException

text \<open>
  What the environment does to the calls of \<open>print\<close>, one result for each call in
  turn; the calls after the last result of the list succeed. \<open>prints k out\<close> is
  \<open>k\<close> calls in a row: whether all of them returned, and the results left for the
  calls that follow (after the call that raised, when one did).
\<close>

datatype print_result = Printed | PrintRaises

type_synonym stdout = "print_result list"

definition prints :: "nat \<Rightarrow> stdout \<Rightarrow> bool \<times> stdout" where
  "prints k out =
     (if PrintRaises \<in> set (take k out)
      then (False, tl (dropWhile (\<lambda>r. r = Printed) out))
      else (True, drop k out))"

text \<open>
  What the environment does to the input. Opening it raises \<open>FileNotFoundError\<close>, or
  another exception, or succeeds. Reading the header raises, or finds no line at all
  (\<open>reader.fieldnames\<close> is \<open>None\<close>), or returns the field names. Each step of the
  loop gets a row or an exception (a decoding error, a \<open>csv.Error\<close>).
\<close>

datatype header = HeaderFault | NoHeader | Header "string list"

datatype read_event = Row row | ReadFault

datatype source = FileNotFound | OpenFault | Opened header "read_event list"

text \<open>
  What the environment does to the output. \<open>open(output_json_path, 'w')\<close> raises and
  leaves the file as it was; or it succeeds, which empties the file, and \<open>json.dump\<close>
  then raises before the whole text has reached the file; or both succeed.
\<close>

datatype sink = SinkOpenFault | SinkWriteFault | SinkOk

datatype file_state =
    Unchanged
  | Partial
  | Written output_document

text \<open>
  How a run ends: the status the function ends it with (1 by \<open>sys.exit(1)\<close> or by
  an exception that nothing catches, 0 when the function returns), the failure that was
  reported if any, and the state of the output file.
\<close>

record outcome =
  exit_status :: nat
  diagnostic :: "error option"
  output_file :: file_state

definition expected_headers :: "string list" where
  "expected_headers = [''name'', ''url'', ''username'', ''password'']"

text \<open>
  A handler: it prints its message and calls \<open>sys.exit(1)\<close>. When that \<open>print\<close>
  raises, nothing catches the exception. The file is in the state the failure left it in.
\<close>

definition failure :: "error \<Rightarrow> file_state \<Rightarrow> stdout \<Rightarrow> outcome" where
  "failure e file out =
     (if fst (prints 1 out)
      then \<lparr> exit_status = 1, diagnostic = Some e, output_file = file \<rparr>
      else \<lparr> exit_status = 1, diagnostic = Some UncaughtException, output_file = file \<rparr>)"

text \<open>
  The number of \<open>print\<close> calls of the loop body for a row: the three lines of the
  warning when the row joins an existing item with other credentials, none otherwise.
\<close>

definition warning_prints :: "row \<Rightarrow> grouped_items \<Rightarrow> nat" where
  "warning_prints row grouped =
     (let name = row_get row ''name'';
          url = row_get row ''url'';
          username = row_get row ''username'';
          password = row_get row ''password''
      in if \<not> truthy name \<or> \<not> truthy url \<or> \<not> truthy username then 0
         else (case map_of grouped (the name) of
                 None \<Rightarrow> 0
               | Some existing_item \<Rightarrow>
                   if login_username (item_login existing_item) \<noteq> the username \<or>
                      login_password (item_login existing_item) \<noteq> password
                   then 3 else 0))"

text \<open>
  \<open>for row in reader\<close> with the exceptions that the reader and the warnings may raise.
  An exception leaves the loop and the \<open>try\<close> block, and the dictionary is not used
  again, so it does not matter that the warning is printed between the two changes that
  \<open>process_row\<close> makes to the item.
\<close>

fun read_loop ::
  "read_event list \<Rightarrow> grouped_items \<Rightarrow> stdout \<Rightarrow> (error + grouped_items) \<times> stdout" where
  "read_loop [] grouped out = (Inr grouped, out)"
| "read_loop (ReadFault # rest) grouped out = (Inl UnexpectedError, out)"
| "read_loop (Row row # rest) grouped out =
     (if fst (prints (warning_prints row grouped) out)
      then read_loop rest (process_row row grouped) (snd (prints (warning_prints row grouped) out))
      else (Inl UnexpectedError, snd (prints (warning_prints row grouped) out)))"

text \<open>
  The second \<open>try\<close> block. Its five success messages are printed inside the block,
  after the \<open>with\<close> statement has closed the file: when one of them raises, the
  handler reports that the output could not be written, though the whole document is in
  the file. Without an exception the function returns.
\<close>

definition write_output :: "output_document \<Rightarrow> sink \<Rightarrow> stdout \<Rightarrow> outcome" where
  "write_output doc snk out =
     (case snk of
        SinkOpenFault \<Rightarrow> failure SinkWriteError Unchanged out
      | SinkWriteFault \<Rightarrow> failure SinkWriteError Partial out
      | SinkOk \<Rightarrow>
          if fst (prints 5 out)
          then \<lparr> exit_status = 0, diagnostic = None, output_file = Written doc \<rparr>
          else failure SinkWriteError (Written doc) (snd (prints 5 out)))"

text \<open>
  The function starts with a \<open>print\<close> outside the \<open>try\<close> blocks. With no header,
  \<open>h in reader.fieldnames\<close> raises \<open>TypeError\<close>, which the handler for
  \<open>Exception\<close> reports as an unexpected error; it also reports an exception raised
  by one of the three messages of the header check. \<open>sys.exit\<close> raises \<open>SystemExit\<close>,
  which that handler does not catch.
\<close>

definition convert_google_to_bitwarden :: "stdout \<Rightarrow> source \<Rightarrow> sink \<Rightarrow> outcome" where
  "convert_google_to_bitwarden out0 src snk =
     (if \<not> fst (prints 1 out0)
      then \<lparr> exit_status = 1, diagnostic = Some UncaughtException, output_file = Unchanged \<rparr>
      else
       (let out = snd (prints 1 out0) in
        case src of
          FileNotFound \<Rightarrow> failure SourceUnavailableError Unchanged out
        | OpenFault \<Rightarrow> failure UnexpectedError Unchanged out
        | Opened hdr events \<Rightarrow>
            (case hdr of
               HeaderFault \<Rightarrow> failure UnexpectedError Unchanged out
             | NoHeader \<Rightarrow> failure UnexpectedError Unchanged out
             | Header fieldnames \<Rightarrow>
                 if \<not> list_all (\<lambda>h. h \<in> set fieldnames) expected_headers
                 then (if fst (prints 3 out)
                       then \<lparr> exit_status = 1,
                              diagnostic = Some (SchemaError expected_headers fieldnames),
                              output_file = Unchanged \<rparr>
                       else failure UnexpectedError Unchanged (snd (prints 3 out)))
                 else (case read_loop events [] out of
                         (Inl e, out') \<Rightarrow> failure e Unchanged out'
                       | (Inr grouped, out') \<Rightarrow>
                           write_output (bitwarden_output grouped) snk out'))))"

section \<open>Notions used to state the properties\<close>

text \<open>A row is accepted when the loop body does not skip it.\<close>

definition accepted :: "row \<Rightarrow> bool" where
  "accepted row = (truthy (row_get row ''name'') \<and> truthy (row_get row ''url'') \<and>
                   truthy (row_get row ''username''))"

text \<open>The accepted rows that bear the name \<open>n\<close>, in input order.\<close>

definition rows_named :: "string \<Rightarrow> row list \<Rightarrow> row list" where
  "rows_named n rows = filter (\<lambda>r. accepted r \<and> row_get r ''name'' = Some n) rows"

text \<open>The names of the accepted rows, in input order, with repetitions.\<close>

definition accepted_names :: "row list \<Rightarrow> string list" where
  "accepted_names rows = map (\<lambda>r. the (row_get r ''name'')) (filter accepted rows)"

text \<open>The distinct elements of a list, each at the place of its first occurrence.\<close>

fun first_occurrences :: "'a list \<Rightarrow> 'a list" where
  "first_occurrences [] = []"
| "first_occurrences (x # xs) = x # first_occurrences (filter (\<lambda>y. y \<noteq> x) xs)"

text \<open>The item an accepted row creates, and the item an accepted row is merged into.\<close>

definition create_item :: "row \<Rightarrow> login_item" where
  "create_item r =
     new_item (the (row_get r ''name'')) (the (row_get r ''url'')) (the (row_get r ''username''))
       (row_get r ''password'') (row_get_default r ''note'' '''')"

definition merge_one :: "login_item \<Rightarrow> row \<Rightarrow> login_item" where
  "merge_one it r =
     merge_row it (the (row_get r ''url'')) (the (row_get r ''username'')) (row_get r ''password'')"

text \<open>The required fields that a header lacks.\<close>

definition missing_fields :: "string list \<Rightarrow> string list" where
  "missing_fields fieldnames = filter (\<lambda>h. h \<notin> set fieldnames) expected_headers"

text \<open>The rows among the events of the reader.\<close>

fun rows_of :: "read_event list \<Rightarrow> row list" where
  "rows_of [] = []"
| "rows_of (Row r # rest) = r # rows_of rest"
| "rows_of (ReadFault # rest) = rows_of rest"

section \<open>Sample inputs\<close>

text \<open>
  Rows as the reader builds them from lines of a Google Passwords export. The last one
  comes from a line that stops after the username, so that it has no password cell.
\<close>

definition google_header :: "string list" where
  "google_header = [''name'', ''url'', ''username'', ''password'', ''note'']"

definition amazon_first :: row where
  "amazon_first = dict_reader_row google_header
     [''Amazon'', ''https://a.com'', ''u1'', ''p1'', '''']"

definition amazon_conflict :: row where
  "amazon_conflict = dict_reader_row google_header
     [''Amazon'', ''https://b.com'', ''u2'', ''p2'', ''second'']"

definition google_first :: row where
  "google_first = dict_reader_row google_header
     [''Google'', ''https://a.com'', ''u1'', ''p1'', ''first'']"

definition google_second :: row where
  "google_second = dict_reader_row google_header
     [''Google'', ''https://b.com'', ''u1'', ''p1'', ''later'']"

definition no_username :: row where
  "no_username = dict_reader_row google_header
     [''Orphan'', ''https://c.com'', '''', ''p3'', '''']"

definition empty_password :: row where
  "empty_password = dict_reader_row google_header
     [''Google'', ''https://a.com'', ''u1'', '''', '''']"

definition short_line :: row where
  "short_line = dict_reader_row expected_headers [''Google'', ''https://a.com'', ''u1'']"

section \<open>Lemmas about the loop\<close>

text \<open>One step of the loop, by the three cases of its body.\<close>

lemma truthy_Some: "truthy v \<Longrightarrow> \<exists>s. v = Some s \<and> s \<noteq> []"
  by (cases v) (simp_all add: truthy_def)

lemma process_row_skip: "\<not> accepted r \<Longrightarrow> process_row r g = g"
  by (auto simp: process_row_def accepted_def Let_def)

lemma process_row_new:
  "accepted r \<Longrightarrow> row_get r ''name'' = Some n \<Longrightarrow> map_of g n = None \<Longrightarrow>
   process_row r g = AList.update n (create_item r) g"
  by (simp add: process_row_def accepted_def Let_def create_item_def)

lemma process_row_existing:
  "accepted r \<Longrightarrow> row_get r ''name'' = Some n \<Longrightarrow> map_of g n = Some it \<Longrightarrow>
   process_row r g = AList.update n (merge_one it r) g"
  by (simp add: process_row_def accepted_def Let_def merge_one_def)

lemma accepted_name: "accepted r \<Longrightarrow> \<exists>n. row_get r ''name'' = Some n \<and> n \<noteq> []"
  by (auto simp: accepted_def dest: truthy_Some)

text \<open>
  What the loop leaves under a name: the item that was there, or the item the first
  accepted row of that name creates, merged with the accepted rows of that name that
  follow.
\<close>

lemma map_of_group_rows:
  "map_of (group_rows rows g) n =
     (case map_of g n of
        Some it \<Rightarrow> Some (foldl merge_one it (rows_named n rows))
      | None \<Rightarrow> (case rows_named n rows of [] \<Rightarrow> None
                 | r # rs \<Rightarrow> Some (foldl merge_one (create_item r) rs)))"
proof (induction rows arbitrary: g)
  case Nil
  show ?case by (simp add: rows_named_def split: option.splits)
next
  case (Cons r rest)
  show ?case
  proof (cases "accepted r")
    case False
    then have e: "rows_named n (r # rest) = rows_named n rest"
      by (simp add: rows_named_def)
    show ?thesis unfolding e using Cons.IH [of g] False
      by (simp add: process_row_skip)
  next
    case True
    then obtain m where m: "row_get r ''name'' = Some m" using accepted_name by blast
    show ?thesis
    proof (cases "map_of g m")
      case None
      have "process_row r g = AList.update m (create_item r) g"
        using True m None by (rule process_row_new)
      then show ?thesis using Cons.IH [of "AList.update m (create_item r) g"] True m None
        by (auto simp: rows_named_def AList.update_conv' split: option.splits)
    next
      case (Some it)
      have "process_row r g = AList.update m (merge_one it r) g"
        using True m Some by (rule process_row_existing)
      then show ?thesis using Cons.IH [of "AList.update m (merge_one it r) g"] True m Some
        by (auto simp: rows_named_def AList.update_conv' split: option.splits)
    qed
  qed
qed

text \<open>The keys of the dictionary, in their order.\<close>

lemma keys_process_row:
  "map fst (process_row r g) =
     (if accepted r \<and> the (row_get r ''name'') \<notin> set (map fst g)
      then map fst g @ [the (row_get r ''name'')] else map fst g)"
proof (cases "accepted r")
  case False
  then show ?thesis by (simp add: process_row_skip)
next
  case True
  then obtain m where m: "row_get r ''name'' = Some m" using accepted_name by blast
  show ?thesis
  proof (cases "map_of g m")
    case None
    then have "m \<notin> set (map fst g)" by (simp add: map_of_eq_None_iff)
    then show ?thesis using process_row_new [OF True m None] True m
      by (simp add: AList.update_keys)
  next
    case (Some it)
    then have "m \<in> set (map fst g)" by (metis map_of_eq_None_iff option.distinct(1) set_map)
    then show ?thesis using process_row_existing [OF True m Some] True m
      by (simp add: AList.update_keys)
  qed
qed

lemma keys_group_rows:
  "map fst (group_rows rows g) =
     map fst g @ first_occurrences (filter (\<lambda>n. n \<notin> set (map fst g)) (accepted_names rows))"
proof (induction rows arbitrary: g)
  case Nil
  show ?case by (simp add: accepted_names_def)
next
  case (Cons r rest)
  have conj: "\<And>A (n::string). (\<lambda>y. y \<noteq> n \<and> y \<notin> A) = (\<lambda>y. y \<notin> A \<and> y \<noteq> n)" by auto
  show ?case using Cons.IH [of "process_row r g"]
    by (auto simp: keys_process_row accepted_names_def conj)
qed

lemma first_occurrences_set: "set (first_occurrences xs) = set xs"
  by (induction xs rule: first_occurrences.induct) auto

lemma first_occurrences_distinct: "distinct (first_occurrences xs)"
  by (induction xs rule: first_occurrences.induct) (auto simp: first_occurrences_set)

lemma keys_distinct: "distinct (map fst (group_rows rows []))"
  by (simp add: keys_group_rows first_occurrences_distinct)

text \<open>What merging a row changes in an item, and what it leaves alone.\<close>

lemma merge_row_frame:
  "item_type (merge_row it u un pw) = item_type it"
  "item_name (merge_row it u un pw) = item_name it"
  "item_favorite (merge_row it u un pw) = item_favorite it"
  "item_fields (merge_row it u un pw) = item_fields it"
  "login_username (item_login (merge_row it u un pw)) = login_username (item_login it)"
  "login_password (item_login (merge_row it u un pw)) = login_password (item_login it)"
  "login_totp (item_login (merge_row it u un pw)) = login_totp (item_login it)"
  "login_uris (item_login (merge_row it u un pw)) =
     login_uris (item_login it) @ [\<lparr> uri = u, match = None \<rparr>]"
  by (simp_all add: merge_row_def Let_def)

lemma merge_row_notes:
  "item_notes (merge_row it u un pw) =
     (if login_username (item_login it) \<noteq> un \<or> login_password (item_login it) \<noteq> pw
      then (if truthy (item_notes it) then Some (the (item_notes it) @ conflict_note u un)
            else Some (strip (conflict_note u un)))
      else item_notes it)"
  by (simp add: merge_row_def Let_def)

lemma merge_all_frame:
  "item_type (foldl merge_one it rs) = item_type it"
  "item_name (foldl merge_one it rs) = item_name it"
  "item_favorite (foldl merge_one it rs) = item_favorite it"
  "item_fields (foldl merge_one it rs) = item_fields it"
  "login_username (item_login (foldl merge_one it rs)) = login_username (item_login it)"
  "login_password (item_login (foldl merge_one it rs)) = login_password (item_login it)"
  "login_totp (item_login (foldl merge_one it rs)) = login_totp (item_login it)"
  by (induction rs arbitrary: it; simp add: merge_one_def merge_row_frame)+

lemma merge_all_uris:
  "login_uris (item_login (foldl merge_one it rs)) =
     login_uris (item_login it) @ map (\<lambda>r. \<lparr> uri = the (row_get r ''url''), match = None \<rparr>) rs"
  by (induction rs arbitrary: it) (simp_all add: merge_one_def merge_row_frame)

text \<open>The items of the document, each found by its name.\<close>

lemma group_rows_item:
  "(k, it) \<in> set (group_rows rows []) \<longleftrightarrow>
     (\<exists>r rs. rows_named k rows = r # rs \<and> it = foldl merge_one (create_item r) rs)"
proof -
  have "(k, it) \<in> set (group_rows rows []) \<longleftrightarrow> map_of (group_rows rows []) k = Some it"
    using keys_distinct [of rows] by simp
  also have "\<dots> \<longleftrightarrow> (\<exists>r rs. rows_named k rows = r # rs \<and> it = foldl merge_one (create_item r) rs)"
    by (cases "rows_named k rows") (auto simp: map_of_group_rows)
  finally show ?thesis .
qed

lemma rows_named_head:
  "rows_named n rows = r # rs \<Longrightarrow> accepted r \<and> row_get r ''name'' = Some n"
proof -
  assume "rows_named n rows = r # rs"
  then have "r \<in> set (rows_named n rows)" by simp
  then show ?thesis by (simp add: rows_named_def)
qed

lemma create_item_name: "row_get r ''name'' = Some n \<Longrightarrow> item_name (create_item r) = n"
  by (simp add: create_item_def new_item_def)

lemma keys_are_names: "(k, it) \<in> set (group_rows rows []) \<Longrightarrow> item_name it = k"
  by (auto simp: group_rows_item merge_all_frame dest!: rows_named_head intro: create_item_name)

lemma filter_values:
  "distinct (map fst g) \<Longrightarrow> (\<And>k v. (k, v) \<in> set g \<Longrightarrow> f v = k) \<Longrightarrow> (n, it) \<in> set g \<Longrightarrow>
   filter (\<lambda>v. f v = n) (map snd g) = [it]"
proof (induction g)
  case Nil
  then show ?case by simp
next
  case (Cons p g)
  obtain k v where p: "p = (k, v)" by (cases p)
  have fv: "f v = k" using Cons.prems(2) [of k v] p by simp
  show ?case
  proof (cases "k = n")
    case True
    have "it = v" using Cons.prems(1,3) p True by (auto simp: image_iff)
    moreover have "filter (\<lambda>v. f v = n) (map snd g) = []"
    proof -
      have "\<And>k' v'. (k', v') \<in> set g \<Longrightarrow> f v' \<noteq> n"
        using Cons.prems(1,2) p True by (metis distinct.simps(2) fst_conv image_eqI list.set_intros(2) list.simps(9) set_map)
      then show ?thesis by (fastforce simp: filter_empty_conv)
    qed
    ultimately show ?thesis using p fv True by simp
  next
    case False
    have "(n, it) \<in> set g" using Cons.prems(3) p False by auto
    then have "filter (\<lambda>v. f v = n) (map snd g) = [it]"
      using Cons.IH Cons.prems(1,2) by simp
    then show ?thesis using p fv False by simp
  qed
qed

lemma group_items:
  assumes "rows_named n rows = r # rs"
  shows "filter (\<lambda>it. item_name it = n) (items (convert rows)) = [foldl merge_one (create_item r) rs]"
proof -
  have "(n, foldl merge_one (create_item r) rs) \<in> set (group_rows rows [])"
    using assms by (auto simp: group_rows_item)
  then show ?thesis
    using filter_values [of "group_rows rows []" item_name n] keys_distinct keys_are_names
    by (simp add: convert_def bitwarden_output_def)
qed

lemma items_origin:
  assumes "it \<in> set (items (convert rows))"
  shows "\<exists>r rs. rows_named (item_name it) rows = r # rs \<and> it = foldl merge_one (create_item r) rs"
proof -
  from assms obtain k where k: "(k, it) \<in> set (group_rows rows [])"
    by (auto simp: convert_def bitwarden_output_def)
  then have "item_name it = k" by (rule keys_are_names)
  then show ?thesis using k by (simp add: group_rows_item)
qed

text \<open>The loop over a split input.\<close>

lemma group_rows_append:
  "group_rows (xs @ ys) g = group_rows ys (group_rows xs g)"
  by (induction xs arbitrary: g) simp_all

text \<open>Calls of \<open>print\<close> in a row.\<close>

lemma prints_none [simp]: "prints 0 out = (True, out)"
  by (simp add: prints_def)

lemma prints_quiet [simp]: "prints k [] = (True, [])"
  by (simp add: prints_def)

lemma prints_then:
  "PrintRaises \<notin> set (take (j + k) out) \<longleftrightarrow>
     fst (prints j out) \<and> fst (prints k (snd (prints j out)))"
  by (auto simp: prints_def take_add)

lemma warning_prints_skip: "\<not> accepted r \<Longrightarrow> warning_prints r g = 0"
  by (auto simp: warning_prints_def accepted_def Let_def)

text \<open>
  The loop with the faults of the reader and of the warnings: when it ends without an
  exception, it has done to the dictionary what \<open>group_rows\<close> does.
\<close>

lemma read_loop_rows:
  "fst (read_loop events g out) = Inr g' \<Longrightarrow>
     ReadFault \<notin> set events \<and> g' = group_rows (rows_of events) g"
  by (induction events g out rule: read_loop.induct) (auto split: if_splits)

lemma read_loop_error: "fst (read_loop events g out) = Inl e \<Longrightarrow> e = UnexpectedError"
  by (induction events g out rule: read_loop.induct) (auto split: if_splits)

lemma read_loop_result:
  "read_loop events g out = (Inr g', out') \<Longrightarrow>
     ReadFault \<notin> set events \<and> g' = group_rows (rows_of events) g"
  using read_loop_rows [of events g out g'] by simp

lemma read_loop_failed: "read_loop events g out = (Inl e, out') \<Longrightarrow> e = UnexpectedError"
  using read_loop_error [of events g out e] by simp

lemma read_loop_quiet:
  "ReadFault \<notin> set events \<Longrightarrow> read_loop events g [] = (Inr (group_rows (rows_of events) g), [])"
  by (induction events g "[] :: stdout" rule: read_loop.induct) auto

lemma failure_fields:
  "exit_status (failure e file out) = 1"
  "output_file (failure e file out) = file"
  "diagnostic (failure e file out) = Some e \<or> diagnostic (failure e file out) = Some UncaughtException"
  by (simp_all add: failure_def)

text \<open>The cells of the sample rows.\<close>

lemmas row_defs = google_header_def expected_headers_def dict_reader_row_def row_get_def row_get_default_def
  truthy_def accepted_def

lemma amazon_first_cells:
  "row_get amazon_first ''name'' = Some ''Amazon''"
  "row_get amazon_first ''url'' = Some ''https://a.com''"
  "row_get amazon_first ''username'' = Some ''u1''"
  "row_get amazon_first ''password'' = Some ''p1''"
  "row_get_default amazon_first ''note'' [] = Some []"
  "accepted amazon_first"
  by (simp_all add: amazon_first_def row_defs)

lemma amazon_conflict_cells:
  "row_get amazon_conflict ''name'' = Some ''Amazon''"
  "row_get amazon_conflict ''url'' = Some ''https://b.com''"
  "row_get amazon_conflict ''username'' = Some ''u2''"
  "row_get amazon_conflict ''password'' = Some ''p2''"
  "row_get_default amazon_conflict ''note'' [] = Some ''second''"
  "accepted amazon_conflict"
  by (simp_all add: amazon_conflict_def row_defs)

lemma google_first_cells:
  "row_get google_first ''name'' = Some ''Google''"
  "row_get google_first ''url'' = Some ''https://a.com''"
  "row_get google_first ''username'' = Some ''u1''"
  "row_get google_first ''password'' = Some ''p1''"
  "row_get_default google_first ''note'' [] = Some ''first''"
  "accepted google_first"
  by (simp_all add: google_first_def row_defs)

lemma google_second_cells:
  "row_get google_second ''name'' = Some ''Google''"
  "row_get google_second ''url'' = Some ''https://b.com''"
  "row_get google_second ''username'' = Some ''u1''"
  "row_get google_second ''password'' = Some ''p1''"
  "row_get_default google_second ''note'' [] = Some ''later''"
  "accepted google_second"
  by (simp_all add: google_second_def row_defs)

lemma no_username_cells:
  "row_get no_username ''name'' = Some ''Orphan''"
  "row_get no_username ''url'' = Some ''https://c.com''"
  "row_get no_username ''username'' = Some []"
  "row_get no_username ''password'' = Some ''p3''"
  "\<not> accepted no_username"
  by (simp_all add: no_username_def row_defs)

lemma empty_password_cells:
  "row_get empty_password ''name'' = Some ''Google''"
  "row_get empty_password ''url'' = Some ''https://a.com''"
  "row_get empty_password ''username'' = Some ''u1''"
  "row_get empty_password ''password'' = Some []"
  "row_get_default empty_password ''note'' [] = Some []"
  "accepted empty_password"
  by (simp_all add: empty_password_def row_defs)

lemma short_line_cells:
  "row_get short_line ''name'' = Some ''Google''"
  "row_get short_line ''url'' = Some ''https://a.com''"
  "row_get short_line ''username'' = Some ''u1''"
  "row_get short_line ''password'' = None"
  "row_get_default short_line ''note'' [] = Some []"
  "accepted short_line"
  by (simp_all add: short_line_def row_defs)

text \<open>The first accepted row of a name, and the credentials of its item.\<close>

lemma find_filter:
  "find P xs = Some x \<Longrightarrow> \<exists>ys. filter P xs = x # ys"
  by (induction xs) (auto split: if_splits)

lemma find_append_found: "find P xs = Some x \<Longrightarrow> find P (xs @ ys) = Some x"
  by (induction xs) (auto split: if_splits)

lemma find_rows_named:
  assumes "find (\<lambda>r. accepted r \<and> row_get r ''name'' = Some n) rows = Some first"
  shows "\<exists>rs. rows_named n rows = first # rs"
  using find_filter [OF assms] by (simp add: rows_named_def)

lemma create_item_credentials:
  "login_username (item_login (create_item r)) = the (row_get r ''username'')"
  "login_password (item_login (create_item r)) = row_get r ''password''"
  "login_uris (item_login (create_item r)) = [\<lparr> uri = the (row_get r ''url''), match = None \<rparr>]"
  by (simp_all add: create_item_def new_item_def)

lemma group_credentials:
  assumes "find (\<lambda>r. accepted r \<and> row_get r ''name'' = Some n) rows = Some first"
  shows "\<exists>it. filter (\<lambda>it. item_name it = n) (items (convert rows)) = [it] \<and>
           login_username (item_login it) = the (row_get first ''username'') \<and>
           login_password (item_login it) = row_get first ''password''"
proof -
  from find_rows_named [OF assms] obtain rs where rs: "rows_named n rows = first # rs" ..
  show ?thesis
    using group_items [OF rs] by (simp add: merge_all_frame create_item_credentials)
qed

text \<open>
  A document is written only when the input was read without a fault, and it is
  \<open>convert\<close> of the rows read.
\<close>

lemma written_document:
  "output_file (convert_google_to_bitwarden out src snk) = Written doc \<Longrightarrow>
     \<exists>fieldnames events. src = Opened (Header fieldnames) events \<and>
        set expected_headers \<subseteq> set fieldnames \<and> ReadFault \<notin> set events \<and> snk = SinkOk \<and>
        doc = convert (rows_of events)"
  by (cases src; cases snk)
     (auto simp: convert_google_to_bitwarden_def failure_fields write_output_def
        convert_def list_all_iff Let_def
        split: header.splits if_splits prod.splits sum.splits dest: read_loop_result)

lemma run_without_faults:
  assumes "set expected_headers \<subseteq> set fieldnames" and "ReadFault \<notin> set events"
  shows "convert_google_to_bitwarden [] (Opened (Header fieldnames) events) SinkOk =
           \<lparr> exit_status = 0, diagnostic = None, output_file = Written (convert (rows_of events)) \<rparr>"
  using assms
  by (auto simp: convert_google_to_bitwarden_def write_output_def read_loop_quiet convert_def
      list_all_iff)

text \<open>
  An input with no line at all has no header to check: the membership test raises, and
  the run ends with the message for an unexpected error, not with the one of the header
  check.
\<close>

lemma empty_input_unexpected_error:
  "convert_google_to_bitwarden [] (Opened NoHeader []) snk =
     \<lparr> exit_status = 1, diagnostic = Some UnexpectedError, output_file = Unchanged \<rparr>"
  by (simp add: convert_google_to_bitwarden_def failure_def)

lemma create_item_shape:
  "item_type (create_item r) = 1"
  "item_favorite (create_item r) = False"
  "login_totp (item_login (create_item r)) = None"
  "item_fields (create_item r) = []"
  by (simp_all add: create_item_def new_item_def)

lemma document_shape:
  assumes "it \<in> set (items (convert rows))"
  shows "item_type it = 1 \<and> item_favorite it = False \<and> login_totp (item_login it) = None \<and>
         item_fields it = [] \<and> (\<forall>u \<in> set (login_uris (item_login it)). match u = None)"
proof -
  from items_origin [OF assms] obtain r rs
    where it: "it = foldl merge_one (create_item r) rs" by blast
  show ?thesis
    by (auto simp: it merge_all_frame merge_all_uris create_item_shape create_item_credentials)
qed

text \<open>A sample document with a conflict, and the trimmed block in it.\<close>

lemma strip_note_b: "strip (conflict_note ''https://b.com'' ''u2'') =
    marker_text @ [newline] @
    ''An entry for the URL below had different credentials and was not merged automatically:'' @ [newline] @
    ''URL: https://b.com'' @ [newline] @ ''Username: u2''"
  by (simp add: strip_def conflict_note_def py_isspace_def newline_def marker_text_def)

lemma amazon_document:
  "convert [amazon_first, amazon_conflict] =
     \<lparr> encrypted = False, folders = [],
       items = [\<lparr> item_type = 1, item_name = ''Amazon'',
                  item_notes = Some (strip (conflict_note ''https://b.com'' ''u2'')),
                  item_favorite = False,
                  item_login = \<lparr> login_uris = [\<lparr> uri = ''https://a.com'', match = None \<rparr>,
                                               \<lparr> uri = ''https://b.com'', match = None \<rparr>],
                                 login_username = ''u1'', login_password = Some ''p1'',
                                 login_totp = None \<rparr>,
                  item_fields = [] \<rparr>] \<rparr>"
  by (simp add: convert_def bitwarden_output_def process_row_def Let_def
        amazon_first_cells amazon_conflict_cells truthy_def new_item_def merge_row_def)

text \<open>The trimmed block is never empty, so that adding it always changes the notes.\<close>

lemma dash_not_space: "\<not> py_isspace (CHR ''-'')"
  by (simp add: py_isspace_def)

lemma conflict_note_start:
  "conflict_note u un = [newline, newline] @ CHR ''-'' # tl marker_text @ [newline] @
     ''An entry for the URL below had different credentials and was not merged automatically:'' @ [newline] @
     ''URL: '' @ u @ [newline] @ ''Username: '' @ un @ [newline]"
  by (simp add: conflict_note_def marker_text_def)

lemma strip_nonempty: "strip (conflict_note u un) \<noteq> []"
proof -
  have sp: "py_isspace newline" by (simp add: py_isspace_def newline_def)
  have "hd (dropWhile py_isspace (conflict_note u un)) = CHR ''-''"
    by (simp add: conflict_note_start sp dash_not_space)
  moreover have "dropWhile py_isspace (conflict_note u un) \<noteq> []"
    by (simp add: conflict_note_start sp dash_not_space)
  ultimately have "CHR ''-'' \<in> set (rev (dropWhile py_isspace (conflict_note u un)))"
    by (metis hd_in_set set_rev)
  then have "dropWhile py_isspace (rev (dropWhile py_isspace (conflict_note u un))) \<noteq> []"
    using dash_not_space by (metis dropWhile_eq_Nil_conv)
  then show ?thesis by (simp add: strip_def)
qed

lemma annotated_notes_differ:
  "(if truthy old then Some (the old @ conflict_note u un) else Some (strip (conflict_note u un)))
     \<noteq> old"
proof (cases old)
  case None
  then show ?thesis by (simp add: truthy_def)
next
  case (Some s)
  have "conflict_note u un \<noteq> []" by (simp add: conflict_note_def)
  then show ?thesis using Some strip_nonempty [of u un]
    by (cases "s = []") (auto simp: truthy_def)
qed

text \<open>Merging reads four cells of the row, and not the note.\<close>

lemma process_row_same_cells:
  assumes "accepted r" and "row_get r ''name'' = Some n" and "map_of g n = Some it"
    and "row_get r' ''name'' = row_get r ''name''" and "row_get r' ''url'' = row_get r ''url''"
    and "row_get r' ''username'' = row_get r ''username''"
    and "row_get r' ''password'' = row_get r ''password''"
  shows "process_row r' g = process_row r g"
proof -
  have "accepted r'" using assms(1,4,5,6) by (simp add: accepted_def)
  moreover have "row_get r' ''name'' = Some n" using assms(2,4) by simp
  ultimately have "process_row r' g = AList.update n (merge_one it r') g"
    using assms(3) by (rule process_row_existing)
  moreover have "merge_one it r' = merge_one it r"
    using assms(5,6,7) by (simp add: merge_one_def)
  ultimately show ?thesis
    using process_row_existing [OF assms(1,2,3)] by simp
qed

lemma merge_row_no_conflict:
  "login_username (item_login it) = un \<Longrightarrow> login_password (item_login it) = pw \<Longrightarrow>
   merge_row it u un pw =
     it \<lparr> item_login := (item_login it)
            \<lparr> login_uris := login_uris (item_login it) @ [\<lparr> uri = u, match = None \<rparr>] \<rparr> \<rparr>"
  by (simp add: merge_row_def Let_def)

lemma merge_row_rest:
  "merge_row it u un pw =
     it \<lparr> item_login := (item_login it)
            \<lparr> login_uris := login_uris (item_login it) @ [\<lparr> uri = u, match = None \<rparr>] \<rparr>,
          item_notes := item_notes (merge_row it u un pw) \<rparr>"
  by (simp add: merge_row_def Let_def)

text \<open>A sample document without a conflict.\<close>

lemma google_document:
  "convert [google_first, google_second] =
     \<lparr> encrypted = False, folders = [],
       items = [\<lparr> item_type = 1, item_name = ''Google'',
                  item_notes = Some ''first'',
                  item_favorite = False,
                  item_login = \<lparr> login_uris = [\<lparr> uri = ''https://a.com'', match = None \<rparr>,
                                               \<lparr> uri = ''https://b.com'', match = None \<rparr>],
                                 login_username = ''u1'', login_password = Some ''p1'',
                                 login_totp = None \<rparr>,
                  item_fields = [] \<rparr>] \<rparr>"
  by (simp add: convert_def bitwarden_output_def process_row_def Let_def
        google_first_cells google_second_cells truthy_def new_item_def merge_row_def)

text \<open>A new key goes to the end; a falsy cell is absent or empty.\<close>

lemma update_new_key: "map_of g n = None \<Longrightarrow> AList.update n v g = g @ [(n, v)]"
  by (induction g) (auto split: if_splits)

lemma falsy_cases: "\<not> truthy v \<Longrightarrow> v = None \<or> v = Some []"
  by (cases v) (simp_all add: truthy_def)

section \<open>The claims\<close>

text \<open>
  C1. Take any name \<open>n\<close> that an accepted row bears, and let \<open>first\<close> be the first
  accepted row of the input with that name. The document has exactly one item named
  \<open>n\<close>, and its username and password are those of \<open>first\<close>, whatever rows (\<open>later\<close>)
  follow, of the same name or not, with the same credentials or not.
\<close>

theorem first_seen_credentials:
  assumes "find (\<lambda>r. accepted r \<and> row_get r ''name'' = Some n) rows = Some first"
  shows "\<exists>it. filter (\<lambda>it. item_name it = n) (items (convert (rows @ later))) = [it] \<and>
           row_get first ''username'' = Some (login_username (item_login it)) \<and>
           row_get first ''password'' = login_password (item_login it)"
proof -
  have found: "find (\<lambda>r. accepted r \<and> row_get r ''name'' = Some n) (rows @ later) = Some first"
    using assms by (rule find_append_found)
  from find_filter [OF assms] obtain ys
    where "filter (\<lambda>r. accepted r \<and> row_get r ''name'' = Some n) rows = first # ys" ..
  then have "first \<in> set (filter (\<lambda>r. accepted r \<and> row_get r ''name'' = Some n) rows)"
    by (metis list.set_intros(1))
  then have "truthy (row_get first ''username'')" by (simp add: accepted_def)
  then obtain un where "row_get first ''username'' = Some un" using truthy_Some by blast
  then show ?thesis using group_credentials [OF found] by auto
qed

theorem first_seen_credentials_witness:
  "\<exists>it. filter (\<lambda>it. item_name it = ''Amazon'') (items (convert ([google_first, amazon_first] @ [amazon_conflict]))) = [it] \<and>
        login_username (item_login it) = ''u1'' \<and> login_password (item_login it) = Some ''p1''"
proof -
  have h: "find (\<lambda>r. accepted r \<and> row_get r ''name'' = Some ''Amazon'') [google_first, amazon_first] = Some amazon_first"
    by (simp add: google_first_cells amazon_first_cells)
  show ?thesis
    using first_seen_credentials [OF h, of "[amazon_conflict]"] by (auto simp: amazon_first_cells)
qed

text \<open>
  C2. For every name \<open>n\<close> that an accepted row bears, the one item named \<open>n\<close> has as
  the uris of its entries the urls of the accepted rows named \<open>n\<close>, in input order:
  the two lists are equal, so they have the same length, the entry at index \<open>i\<close> holds
  the url of the \<open>i\<close>-th such row, and a url that occurs twice is kept twice.
\<close>

theorem uris_follow_rows:
  assumes "rows_named n rows \<noteq> []"
  shows "\<exists>it. filter (\<lambda>it. item_name it = n) (items (convert rows)) = [it] \<and>
           map uri (login_uris (item_login it)) = map (\<lambda>r. the (row_get r ''url'')) (rows_named n rows) \<and>
           length (login_uris (item_login it)) = length (rows_named n rows) \<and>
           (\<forall>i < length (rows_named n rows).
              row_get (rows_named n rows ! i) ''url'' = Some (uri (login_uris (item_login it) ! i)))"
proof -
  from assms obtain r rs where rs: "rows_named n rows = r # rs" by (cases "rows_named n rows") auto
  define it where "it = foldl merge_one (create_item r) rs"
  have one: "filter (\<lambda>it. item_name it = n) (items (convert rows)) = [it]"
    using group_items [OF rs] by (simp add: it_def)
  have uris: "login_uris (item_login it) =
      map (\<lambda>r. \<lparr> uri = the (row_get r ''url''), match = None \<rparr>) (rows_named n rows)"
    by (simp add: it_def rs merge_all_uris create_item_credentials)
  have urls: "\<forall>i < length (rows_named n rows).
      row_get (rows_named n rows ! i) ''url'' = Some (uri (login_uris (item_login it) ! i))"
  proof (intro allI impI)
    fix i assume i: "i < length (rows_named n rows)"
    then have "rows_named n rows ! i \<in> set (rows_named n rows)" by simp
    then have "truthy (row_get (rows_named n rows ! i) ''url'')"
      by (simp add: rows_named_def accepted_def)
    then obtain u where "row_get (rows_named n rows ! i) ''url'' = Some u"
      using truthy_Some by blast
    then show "row_get (rows_named n rows ! i) ''url'' = Some (uri (login_uris (item_login it) ! i))"
      using i by (simp add: uris)
  qed
  show ?thesis using one uris urls by (auto simp: comp_def)
qed

theorem uris_follow_rows_witness:
  "\<exists>it. filter (\<lambda>it. item_name it = ''Google'') (items (convert [google_first, amazon_first, google_second, google_first])) = [it] \<and>
        map uri (login_uris (item_login it)) = [''https://a.com'', ''https://b.com'', ''https://a.com'']"
proof -
  have rn: "rows_named ''Google'' [google_first, amazon_first, google_second, google_first] =
      [google_first, google_second, google_first]"
    by (simp add: rows_named_def google_first_cells google_second_cells amazon_first_cells)
  then have h: "rows_named ''Google'' [google_first, amazon_first, google_second, google_first] \<noteq> []"
    by simp
  show ?thesis
    using uris_follow_rows [OF h] by (auto simp: rn google_first_cells google_second_cells)
qed

text \<open>
  C3. The names of the items of the document are the distinct names of the accepted
  rows, each once, in the order of their first occurrence in the input; so there are as
  many items as distinct names.
\<close>

theorem one_item_per_name:
  "map item_name (items (convert rows)) = first_occurrences (accepted_names rows) \<and>
   distinct (map item_name (items (convert rows))) \<and>
   set (map item_name (items (convert rows))) = set (accepted_names rows) \<and>
   length (items (convert rows)) = card (set (accepted_names rows))"
proof -
  have names: "map item_name (items (convert rows)) = map fst (group_rows rows [])"
    by (auto simp: convert_def bitwarden_output_def dest: keys_are_names)
  then have order: "map item_name (items (convert rows)) = first_occurrences (accepted_names rows)"
    by (simp add: keys_group_rows)
  have "length (items (convert rows)) = length (first_occurrences (accepted_names rows))"
    using order by (metis length_map)
  also have "\<dots> = card (set (first_occurrences (accepted_names rows)))"
    by (simp add: distinct_card first_occurrences_distinct)
  finally show ?thesis
    using order by (simp add: first_occurrences_distinct first_occurrences_set)
qed

theorem one_item_per_name_witness:
  "map item_name (items (convert [google_first, no_username, amazon_first, google_second, amazon_conflict])) =
     [''Google'', ''Amazon'']"
proof -
  have "accepted_names [google_first, no_username, amazon_first, google_second, amazon_conflict] =
     [''Google'', ''Amazon'', ''Google'', ''Amazon'']"
    by (simp add: accepted_names_def google_first_cells no_username_cells amazon_first_cells
        google_second_cells amazon_conflict_cells)
  then show ?thesis
    using one_item_per_name [of "[google_first, no_username, amazon_first, google_second, amazon_conflict]"]
    by simp
qed

text \<open>
  C4. An accepted row \<open>r\<close> (name \<open>n\<close>, url \<open>u\<close>, username \<open>un\<close>) meets a
  dictionary in which \<open>n\<close> already has the item \<open>it\<close>. After the row, the notes of the
  item named \<open>n\<close> differ from those of \<open>it\<close> exactly when the username of the row
  differs from the stored username or its password from the stored password. Then, if
  the notes were non-empty, they are the old notes followed by the block
  \<open>conflict_note u un\<close>; if they were unset (or empty), they are exactly the trimmed
  block. The block begins with two newlines (the blank-line separator) and the marker
  text, and contains \<open>u\<close> and \<open>un\<close>. It is a function of the url and the username
  alone: the password of the row decides only whether there is a conflict. (Trimming
  also removes white space at the end of the username, which closes the block.)
\<close>

theorem conflict_annotation:
  assumes "accepted r" and "row_get r ''name'' = Some n" and "row_get r ''url'' = Some u"
    and "row_get r ''username'' = Some un" and "map_of g n = Some it"
  shows "(\<exists>it'. map_of (process_row r g) n = Some it' \<and>
            item_notes it' =
              (if login_username (item_login it) \<noteq> un \<or>
                  login_password (item_login it) \<noteq> row_get r ''password''
               then (if truthy (item_notes it)
                     then Some (the (item_notes it) @ conflict_note u un)
                     else Some (strip (conflict_note u un)))
               else item_notes it) \<and>
            (item_notes it' \<noteq> item_notes it \<longleftrightarrow>
               login_username (item_login it) \<noteq> un \<or>
               login_password (item_login it) \<noteq> row_get r ''password'')) \<and>
         (\<exists>rest. conflict_note u un = [newline, newline] @ marker_text @ rest) \<and>
         (\<exists>before after. conflict_note u un = before @ u @ after) \<and>
         (\<exists>before after. conflict_note u un = before @ un @ after)"
proof -
  have step: "process_row r g = AList.update n (merge_one it r) g"
    using assms(1,2,5) by (rule process_row_existing)
  have new_notes: "item_notes (merge_one it r) =
      (if login_username (item_login it) \<noteq> un \<or>
          login_password (item_login it) \<noteq> row_get r ''password''
       then (if truthy (item_notes it)
             then Some (the (item_notes it) @ conflict_note u un)
             else Some (strip (conflict_note u un)))
       else item_notes it)"
    by (simp add: merge_one_def merge_row_notes assms(3,4))
  have changed: "item_notes (merge_one it r) \<noteq> item_notes it \<longleftrightarrow>
      login_username (item_login it) \<noteq> un \<or>
      login_password (item_login it) \<noteq> row_get r ''password''"
    unfolding new_notes using annotated_notes_differ [of "item_notes it" u un] by auto
  have item: "\<exists>it'. map_of (process_row r g) n = Some it' \<and>
            item_notes it' =
              (if login_username (item_login it) \<noteq> un \<or>
                  login_password (item_login it) \<noteq> row_get r ''password''
               then (if truthy (item_notes it)
                     then Some (the (item_notes it) @ conflict_note u un)
                     else Some (strip (conflict_note u un)))
               else item_notes it) \<and>
            (item_notes it' \<noteq> item_notes it \<longleftrightarrow>
               login_username (item_login it) \<noteq> un \<or>
               login_password (item_login it) \<noteq> row_get r ''password'')"
    using new_notes changed by (simp add: step AList.update_conv')
  have sep: "\<exists>rest. conflict_note u un = [newline, newline] @ marker_text @ rest"
    by (simp add: conflict_note_def)
  have url: "\<exists>before after. conflict_note u un = before @ u @ after"
    unfolding conflict_note_def by (metis append.assoc)
  have user: "\<exists>before after. conflict_note u un = before @ un @ after"
    unfolding conflict_note_def by (metis append.assoc)
  show ?thesis using item sep url user by blast
qed

theorem conflict_annotation_witness:
  "\<exists>it'. map_of (process_row amazon_conflict (process_row amazon_first [])) ''Amazon'' = Some it' \<and>
       item_notes it' = Some (marker_text @ [newline] @
         ''An entry for the URL below had different credentials and was not merged automatically:'' @ [newline] @
         ''URL: https://b.com'' @ [newline] @ ''Username: u2'')"
proof -
  have g: "map_of (process_row amazon_first []) ''Amazon'' = Some (create_item amazon_first)"
    by (simp add: process_row_def Let_def amazon_first_cells truthy_def create_item_def)
  show ?thesis
    using conflict_annotation [OF amazon_conflict_cells(6) amazon_conflict_cells(1)
        amazon_conflict_cells(2) amazon_conflict_cells(3) g]
    by (auto simp: create_item_def new_item_def amazon_first_cells amazon_conflict_cells
        truthy_def strip_note_b)
qed

text \<open>
  C5. A row whose name, url or username is empty or absent is skipped: the dictionary is
  left exactly as it was (no new item, no new uri, no change to an existing item, whatever
  the name of the row), the loop goes on with the next row without an error and without
  a message, and the document is the one the input without that row gives.
\<close>

theorem skipped_row_changes_nothing:
  assumes "\<not> truthy (row_get r ''name'') \<or> \<not> truthy (row_get r ''url'') \<or>
           \<not> truthy (row_get r ''username'')"
  shows "process_row r g = g \<and>
         read_loop (Row r # events) g out = read_loop events g out \<and>
         convert (before @ r # after) = convert (before @ after)"
proof -
  have skipped: "\<not> accepted r" using assms by (auto simp: accepted_def)
  then have skip: "\<And>g. process_row r g = g" by (rule process_row_skip)
  then show ?thesis
    by (simp add: convert_def group_rows_append warning_prints_skip [OF skipped])
qed

theorem skipped_row_changes_nothing_witness:
  "process_row no_username (process_row amazon_first []) = process_row amazon_first [] \<and>
   read_loop [Row no_username] [] [PrintRaises] = (Inr [], [PrintRaises]) \<and>
   map item_name (items (convert ([amazon_first] @ no_username # [amazon_conflict]))) = [''Amazon'']"
proof -
  have h: "\<not> truthy (row_get no_username ''name'') \<or> \<not> truthy (row_get no_username ''url'') \<or>
           \<not> truthy (row_get no_username ''username'')"
    by (simp add: no_username_cells truthy_def)
  have a: "map item_name (items (convert ([amazon_first] @ [amazon_conflict]))) = [''Amazon'']"
    by (simp add: convert_def bitwarden_output_def process_row_def Let_def
        amazon_first_cells amazon_conflict_cells truthy_def new_item_def merge_row_def)
  show ?thesis
    using skipped_row_changes_nothing [OF h, of "process_row amazon_first []" "[]" "[]" "[amazon_first]" "[amazon_conflict]"]
      skipped_row_changes_nothing [OF h, of "[]" "[]" "[PrintRaises]" "[]" "[]"] a
    by simp
qed

text \<open>
  C6, as stated, fails in one point. The message of the header check lists all the
  expected headers and all the headers found: with a header that lacks only
  \<open>password\<close> it shows the four expected names and the three names found, and never
  the missing field by itself.
\<close>

theorem schema_message_lists_expected_and_found:
  "diagnostic (convert_google_to_bitwarden []
      (Opened (Header [''name'', ''url'', ''username'']) []) SinkOk) =
     Some (SchemaError [''name'', ''url'', ''username'', ''password'']
                       [''name'', ''url'', ''username'']) \<and>
   missing_fields [''name'', ''url'', ''username''] = [''password''] \<and>
   [''name'', ''url'', ''username'', ''password''] \<noteq> missing_fields [''name'', ''url'', ''username''] \<and>
   [''name'', ''url'', ''username''] \<noteq> missing_fields [''name'', ''url'', ''username'']"
  by (simp add: convert_google_to_bitwarden_def expected_headers_def missing_fields_def)

text \<open>
  C6, amended. When the header that was read lacks one of the four required fields, the
  run ends with status 1 and the output file is left as it was: it is never opened.
  Nothing depends on what the reader would have yielded next, a row or an exception, nor
  on the state of the output, so no row is processed. When the first message of the
  function and the three messages of the header check can be printed, the diagnostic is
  the one of the header check, which shows the list of the expected headers and the list
  of the headers found. (An input with no header line at all is not covered here.)
\<close>

theorem schema_mismatch:
  assumes "\<not> set expected_headers \<subseteq> set fieldnames"
  shows "exit_status (convert_google_to_bitwarden out (Opened (Header fieldnames) events) snk) = 1 \<and>
         output_file (convert_google_to_bitwarden out (Opened (Header fieldnames) events) snk) = Unchanged \<and>
         convert_google_to_bitwarden out (Opened (Header fieldnames) events) snk =
           convert_google_to_bitwarden out (Opened (Header fieldnames) events') snk' \<and>
         (PrintRaises \<notin> set (take 4 out) \<longrightarrow>
            diagnostic (convert_google_to_bitwarden out (Opened (Header fieldnames) events) snk) =
              Some (SchemaError expected_headers fieldnames))"
proof -
  have bad: "\<not> list_all (\<lambda>h. h \<in> set fieldnames) expected_headers"
    using assms by (auto simp: list_all_iff)
  have four: "PrintRaises \<notin> set (take 4 out) \<longleftrightarrow>
      fst (prints 1 out) \<and> fst (prints 3 (snd (prints 1 out)))"
    using prints_then [of 1 3 out] by simp
  show ?thesis
    using bad four by (simp add: convert_google_to_bitwarden_def Let_def failure_fields)
qed

theorem schema_mismatch_witness:
  "convert_google_to_bitwarden [Printed, Printed]
     (Opened (Header [''name'', ''url'', ''username'']) [Row short_line, ReadFault]) SinkOk =
     \<lparr> exit_status = 1,
       diagnostic = Some (SchemaError [''name'', ''url'', ''username'', ''password'']
                                      [''name'', ''url'', ''username'']),
       output_file = Unchanged \<rparr> \<and>
   convert_google_to_bitwarden [Printed, Printed]
     (Opened (Header [''name'', ''url'', ''username'']) [Row short_line, ReadFault]) SinkOk =
   convert_google_to_bitwarden [Printed, Printed]
     (Opened (Header [''name'', ''url'', ''username'']) []) SinkWriteFault"
proof -
  have h: "\<not> set expected_headers \<subseteq> set [''name'', ''url'', ''username'']"
    by (simp add: expected_headers_def)
  have p: "PrintRaises \<notin> set (take 4 [Printed, Printed])" by simp
  show ?thesis
    using schema_mismatch [OF h, of "[Printed, Printed]" "[Row short_line, ReadFault]" SinkOk
        "[]" SinkWriteFault] p
    by (cases "convert_google_to_bitwarden [Printed, Printed]
          (Opened (Header [''name'', ''url'', ''username'']) [Row short_line, ReadFault]) SinkOk")
       (simp add: expected_headers_def)
qed

text \<open>
  C7, as stated, fails. When \<open>json.dump\<close> raises after \<open>open(output_json_path, 'w')\<close>
  has emptied the file, the run ends with status 1 and the file is neither as it was nor
  completely written. The code writes into the output file itself; there is no
  temporary file to rename.
\<close>

theorem write_fault_leaves_partial_file:
  "exit_status (convert_google_to_bitwarden []
      (Opened (Header google_header) [Row amazon_first]) SinkWriteFault) = 1 \<and>
   diagnostic (convert_google_to_bitwarden []
      (Opened (Header google_header) [Row amazon_first]) SinkWriteFault) = Some SinkWriteError \<and>
   output_file (convert_google_to_bitwarden []
      (Opened (Header google_header) [Row amazon_first]) SinkWriteFault) = Partial"
  by (simp add: convert_google_to_bitwarden_def google_header_def expected_headers_def
      write_output_def failure_def warning_prints_def Let_def amazon_first_cells truthy_def)

text \<open>
  C7, amended. Every failure ends the run with status 1. A failure of the first
  \<open>try\<close> block (unreadable input, header check, unexpected error while the rows are
  read and processed) leaves the output file as it was. A failure of the second one, which
  the code reports as a write failure, leaves it as it was when the file could not be
  opened, emptied or partly written when the exception came while the document was
  written, and completely written when the exception came from a success message. An
  exception that no handler catches leaves the file in one of these three states as
  well. The file is emptied or partly written only when writing the document raised. A
  run without a failure has written the whole document.
\<close>

theorem failure_modes:
  "(diagnostic (convert_google_to_bitwarden out src snk) \<noteq> None \<longrightarrow>
      exit_status (convert_google_to_bitwarden out src snk) = 1) \<and>
   (\<forall>e. diagnostic (convert_google_to_bitwarden out src snk) = Some e \<longrightarrow>
      e \<noteq> SinkWriteError \<longrightarrow> e \<noteq> UncaughtException \<longrightarrow>
      output_file (convert_google_to_bitwarden out src snk) = Unchanged) \<and>
   (diagnostic (convert_google_to_bitwarden out src snk) = Some SinkWriteError \<or>
    diagnostic (convert_google_to_bitwarden out src snk) = Some UncaughtException \<longrightarrow>
      output_file (convert_google_to_bitwarden out src snk) = Unchanged \<or>
      (snk = SinkWriteFault \<and> output_file (convert_google_to_bitwarden out src snk) = Partial) \<or>
      (snk = SinkOk \<and>
       (\<exists>doc. output_file (convert_google_to_bitwarden out src snk) = Written doc))) \<and>
   (diagnostic (convert_google_to_bitwarden out src snk) = Some SinkWriteError \<and>
    output_file (convert_google_to_bitwarden out src snk) = Unchanged \<longrightarrow> snk = SinkOpenFault) \<and>
   (output_file (convert_google_to_bitwarden out src snk) = Partial \<longrightarrow>
      snk = SinkWriteFault \<and> diagnostic (convert_google_to_bitwarden out src snk) \<noteq> None) \<and>
   (diagnostic (convert_google_to_bitwarden out src snk) = None \<longrightarrow>
      snk = SinkOk \<and> (\<exists>doc. output_file (convert_google_to_bitwarden out src snk) = Written doc))"
  by (cases src; cases snk)
     (auto simp: convert_google_to_bitwarden_def failure_def write_output_def Let_def
        split: header.splits sum.splits prod.splits if_splits dest: read_loop_failed)

theorem failure_modes_witness:
  "map (\<lambda>(out, src, snk). (exit_status (convert_google_to_bitwarden out src snk),
                          diagnostic (convert_google_to_bitwarden out src snk),
                          output_file (convert_google_to_bitwarden out src snk)))
     [([], FileNotFound, SinkOk),
      ([], Opened (Header [''name'']) [], SinkOk),
      ([], Opened (Header google_header) [ReadFault], SinkOk),
      ([], Opened (Header google_header) [], SinkOpenFault),
      ([], Opened (Header google_header) [], SinkWriteFault),
      ([Printed, PrintRaises], Opened (Header google_header) [], SinkOk),
      ([PrintRaises], Opened (Header google_header) [], SinkOk)] =
     [(1, Some SourceUnavailableError, Unchanged),
      (1, Some (SchemaError expected_headers [''name'']), Unchanged),
      (1, Some UnexpectedError, Unchanged),
      (1, Some SinkWriteError, Unchanged),
      (1, Some SinkWriteError, Partial),
      (1, Some SinkWriteError, Written (convert [])),
      (1, Some UncaughtException, Unchanged)]"
proof -
  have d: "diagnostic (convert_google_to_bitwarden [] FileNotFound SinkOk) = Some SourceUnavailableError"
    "diagnostic (convert_google_to_bitwarden [] (Opened (Header [''name'']) []) SinkOk) =
       Some (SchemaError expected_headers [''name''])"
    "diagnostic (convert_google_to_bitwarden [] (Opened (Header google_header) [ReadFault]) SinkOk) =
       Some UnexpectedError"
    "diagnostic (convert_google_to_bitwarden [] (Opened (Header google_header) []) SinkOpenFault) =
       Some SinkWriteError"
    "diagnostic (convert_google_to_bitwarden [] (Opened (Header google_header) []) SinkWriteFault) =
       Some SinkWriteError"
    "diagnostic (convert_google_to_bitwarden [Printed, PrintRaises] (Opened (Header google_header) []) SinkOk) =
       Some SinkWriteError"
    "diagnostic (convert_google_to_bitwarden [PrintRaises] (Opened (Header google_header) []) SinkOk) =
       Some UncaughtException"
    by (simp_all add: convert_google_to_bitwarden_def failure_def write_output_def
        google_header_def expected_headers_def prints_def)
  have f: "output_file (convert_google_to_bitwarden [] FileNotFound SinkOk) = Unchanged"
    "output_file (convert_google_to_bitwarden [] (Opened (Header [''name'']) []) SinkOk) = Unchanged"
    "output_file (convert_google_to_bitwarden [] (Opened (Header google_header) [ReadFault]) SinkOk) = Unchanged"
    "output_file (convert_google_to_bitwarden [] (Opened (Header google_header) []) SinkOpenFault) = Unchanged"
    "output_file (convert_google_to_bitwarden [] (Opened (Header google_header) []) SinkWriteFault) = Partial"
    "output_file (convert_google_to_bitwarden [Printed, PrintRaises] (Opened (Header google_header) []) SinkOk) =
       Written (convert [])"
    "output_file (convert_google_to_bitwarden [PrintRaises] (Opened (Header google_header) []) SinkOk) = Unchanged"
    by (simp_all add: convert_google_to_bitwarden_def failure_def write_output_def
        google_header_def expected_headers_def prints_def convert_def)
  have status: "exit_status (convert_google_to_bitwarden out src snk) = 1"
    if "diagnostic (convert_google_to_bitwarden out src snk) = Some e" for out src snk e
  proof -
    from failure_modes [of out src snk]
    have "diagnostic (convert_google_to_bitwarden out src snk) \<noteq> None \<longrightarrow>
        exit_status (convert_google_to_bitwarden out src snk) = 1"
      by (rule conjunct1)
    then show ?thesis using that by simp
  qed
  note e = d [THEN status]
  show ?thesis by (simp add: d e f)
qed

text \<open>
  C8. Whenever a run writes a document, the document has \<open>encrypted\<close> false and
  \<open>folders\<close> empty, and every item of it has type 1 (the code of a login item),
  \<open>favorite\<close> false, \<open>totp\<close> unset, \<open>fields\<close> empty and \<open>match\<close> unset in every
  entry of its uris.
\<close>

theorem fixed_shape:
  assumes "output_file (convert_google_to_bitwarden out src snk) = Written doc"
  shows "encrypted doc = False \<and> folders doc = [] \<and>
         (\<forall>it \<in> set (items doc).
            item_type it = 1 \<and> item_favorite it = False \<and> login_totp (item_login it) = None \<and>
            item_fields it = [] \<and> (\<forall>u \<in> set (login_uris (item_login it)). match u = None))"
proof -
  from written_document [OF assms] obtain events where doc: "doc = convert (rows_of events)"
    by blast
  have "encrypted doc = False \<and> folders doc = []"
    by (simp add: doc convert_def bitwarden_output_def)
  then show ?thesis using document_shape [of _ "rows_of events"] by (simp add: doc)
qed

theorem fixed_shape_witness:
  "\<exists>doc. output_file (convert_google_to_bitwarden []
            (Opened (Header google_header) [Row amazon_first, Row amazon_conflict]) SinkOk) = Written doc \<and>
         encrypted doc = False \<and> folders doc = [] \<and>
         map item_name (items doc) = [''Amazon''] \<and>
         map item_type (items doc) = [1] \<and> map item_favorite (items doc) = [False] \<and>
         map item_fields (items doc) = [[]] \<and>
         map (\<lambda>it. login_totp (item_login it)) (items doc) = [None] \<and>
         map (\<lambda>it. map match (login_uris (item_login it))) (items doc) = [[None, None]]"
proof -
  define doc where "doc = convert [amazon_first, amazon_conflict]"
  have h: "output_file (convert_google_to_bitwarden []
            (Opened (Header google_header) [Row amazon_first, Row amazon_conflict]) SinkOk) = Written doc"
    using run_without_faults [of google_header "[Row amazon_first, Row amazon_conflict]"]
    by (simp add: expected_headers_def google_header_def doc_def)
  obtain it where one: "items doc = [it]" and name: "item_name it = ''Amazon''"
    and us: "map uri (login_uris (item_login it)) = [''https://a.com'', ''https://b.com'']"
    by (simp add: doc_def amazon_document)
  from us obtain u1 u2 where "login_uris (item_login it) = [u1, u2]" by auto
  then show ?thesis using fixed_shape [OF h] h one name by simp
qed

text \<open>
  C9. An accepted row \<open>r\<close> (name \<open>n\<close>, url \<open>u\<close>, username \<open>un\<close>) meets a
  dictionary in which \<open>n\<close> already has the item \<open>it\<close>. Its note is not read: any row
  \<open>r'\<close> with the same name, url, username and password cells, whatever its note, gives
  the same dictionary, and in place of \<open>r\<close> in an input the same document. So only the
  row that created the item can give its note to the item. The row changes nothing but
  the item named \<open>n\<close>, and of that item only the uris, which get one more entry, and
  the notes, which stay as they were or get the conflict block, a text built from
  \<open>u\<close> and \<open>un\<close>. When the credentials of the row are the stored ones, the one more
  entry is the whole change.
\<close>

theorem later_note_discarded:
  assumes "accepted r" and "row_get r ''name'' = Some n" and "row_get r ''url'' = Some u"
    and "row_get r ''username'' = Some un" and "map_of g n = Some it"
    and "row_get r' ''name'' = row_get r ''name''" and "row_get r' ''url'' = row_get r ''url''"
    and "row_get r' ''username'' = row_get r ''username''"
    and "row_get r' ''password'' = row_get r ''password''"
  shows "process_row r' g = process_row r g \<and>
         (group_rows before [] = g \<longrightarrow>
            convert (before @ r' # after) = convert (before @ r # after)) \<and>
         (\<exists>it'. process_row r g = AList.update n it' g \<and>
            it' = it \<lparr> item_login := (item_login it)
                         \<lparr> login_uris := login_uris (item_login it) @ [\<lparr> uri = u, match = None \<rparr>] \<rparr>,
                       item_notes := item_notes it' \<rparr> \<and>
            (item_notes it' = item_notes it \<or>
             item_notes it' = Some (the (item_notes it) @ conflict_note u un) \<or>
             item_notes it' = Some (strip (conflict_note u un))) \<and>
            (login_username (item_login it) = un \<and>
             login_password (item_login it) = row_get r ''password'' \<longrightarrow>
               it' = it \<lparr> item_login := (item_login it)
                            \<lparr> login_uris := login_uris (item_login it) @ [\<lparr> uri = u, match = None \<rparr>] \<rparr> \<rparr>))"
proof -
  have same: "process_row r' g = process_row r g"
    using assms(1,2,5,6,7,8,9) by (rule process_row_same_cells)
  have whole: "group_rows before [] = g \<longrightarrow>
      convert (before @ r' # after) = convert (before @ r # after)"
    using same by (auto simp: convert_def group_rows_append)
  have step: "process_row r g = AList.update n (merge_one it r) g"
    using assms(1,2,5) by (rule process_row_existing)
  have m: "merge_one it r = merge_row it u un (row_get r ''password'')"
    by (simp add: merge_one_def assms(3,4))
  have rest: "merge_one it r =
      it \<lparr> item_login := (item_login it)
             \<lparr> login_uris := login_uris (item_login it) @ [\<lparr> uri = u, match = None \<rparr>] \<rparr>,
           item_notes := item_notes (merge_one it r) \<rparr>"
    unfolding m by (rule merge_row_rest)
  have nts: "item_notes (merge_one it r) = item_notes it \<or>
      item_notes (merge_one it r) = Some (the (item_notes it) @ conflict_note u un) \<or>
      item_notes (merge_one it r) = Some (strip (conflict_note u un))"
    by (simp add: m merge_row_notes)
  have quiet: "login_username (item_login it) = un \<and>
      login_password (item_login it) = row_get r ''password'' \<longrightarrow>
      merge_one it r = it \<lparr> item_login := (item_login it)
             \<lparr> login_uris := login_uris (item_login it) @ [\<lparr> uri = u, match = None \<rparr>] \<rparr> \<rparr>"
    by (simp add: m merge_row_no_conflict)
  show ?thesis using same whole step rest nts quiet by blast
qed

theorem later_note_discarded_witness:
  "convert ([google_first] @
      dict_reader_row google_header [''Google'', ''https://b.com'', ''u1'', ''p1'', ''changed''] # []) =
     convert [google_first, google_second] \<and>
   map item_notes (items (convert [google_first, google_second])) = [Some ''first'']"
proof -
  define r' where
    "r' = dict_reader_row google_header [''Google'', ''https://b.com'', ''u1'', ''p1'', ''changed'']"
  have g: "map_of (process_row google_first []) ''Google'' = Some (create_item google_first)"
    by (simp add: process_row_def Let_def google_first_cells truthy_def create_item_def)
  have b: "group_rows [google_first] [] = process_row google_first []" by simp
  have c: "row_get r' ''name'' = row_get google_second ''name''"
    "row_get r' ''url'' = row_get google_second ''url''"
    "row_get r' ''username'' = row_get google_second ''username''"
    "row_get r' ''password'' = row_get google_second ''password''"
    by (simp_all add: r'_def google_second_cells) (simp_all add: row_defs)
  show ?thesis
    using later_note_discarded [OF google_second_cells(6) google_second_cells(1)
        google_second_cells(2) google_second_cells(3) g c, of "[google_first]" "[]"] b
    by (simp add: google_document r'_def)
qed

text \<open>
  C10, as stated, fails in one point. A line that stops before the password cell gives
  a row whose password is absent; the row is accepted and creates its group, but the
  stored password is then unset (\<open>None\<close>, written as \<open>null\<close>), not the empty string.
\<close>

theorem absent_password_stored_unset:
  "accepted short_line \<and> \<not> truthy (row_get short_line ''password'') \<and>
   map item_name (items (convert [short_line])) = [''Google''] \<and>
   map (\<lambda>it. login_password (item_login it)) (items (convert [short_line])) = [None]"
  by (simp add: convert_def bitwarden_output_def process_row_def Let_def short_line_cells
      truthy_def new_item_def)

text \<open>
  C10, amended. A row whose password is empty or absent and whose name, url and
  username are non-empty is accepted. When its name is new it creates the group, at the
  end of the dictionary, and the stored password is the cell as it was read: the empty
  string for an empty cell, unset for an absent one; it stays the password of the group
  whatever rows follow. When its name has a group, the row is merged like any other
  row, and the notes change exactly when its username differs from the stored one or
  its password cell differs from the stored password (an absent password differs from
  every string, the empty one too).
\<close>

theorem row_without_password:
  assumes "accepted r" and "row_get r ''name'' = Some n" and "row_get r ''url'' = Some u"
    and "row_get r ''username'' = Some un" and "\<not> truthy (row_get r ''password'')"
  shows "(row_get r ''password'' = None \<or> row_get r ''password'' = Some []) \<and>
         (map_of g n = None \<longrightarrow>
            process_row r g = g @ [(n, create_item r)] \<and>
            login_password (item_login (create_item r)) = row_get r ''password'' \<and>
            (\<exists>it. map_of (group_rows later (process_row r g)) n = Some it \<and>
                  login_password (item_login it) = row_get r ''password'')) \<and>
         (\<forall>it. map_of g n = Some it \<longrightarrow>
            process_row r g = AList.update n (merge_row it u un (row_get r ''password'')) g \<and>
            (item_notes (merge_row it u un (row_get r ''password'')) \<noteq> item_notes it \<longleftrightarrow>
               login_username (item_login it) \<noteq> un \<or>
               login_password (item_login it) \<noteq> row_get r ''password''))"
proof -
  have cell: "row_get r ''password'' = None \<or> row_get r ''password'' = Some []"
    using assms(5) by (rule falsy_cases)
  have fresh: "map_of g n = None \<longrightarrow>
            process_row r g = g @ [(n, create_item r)] \<and>
            login_password (item_login (create_item r)) = row_get r ''password'' \<and>
            (\<exists>it. map_of (group_rows later (process_row r g)) n = Some it \<and>
                  login_password (item_login it) = row_get r ''password'')"
  proof
    assume none: "map_of g n = None"
    have step: "process_row r g = g @ [(n, create_item r)]"
      using process_row_new [OF assms(1,2) none] none by (simp add: update_new_key)
    have "map_of (g @ [(n, create_item r)]) n = Some (create_item r)"
      using none by (simp add: map_add_def)
    then have "map_of (group_rows later (process_row r g)) n =
        Some (foldl merge_one (create_item r) (rows_named n later))"
      by (simp add: step map_of_group_rows)
    then show "process_row r g = g @ [(n, create_item r)] \<and>
            login_password (item_login (create_item r)) = row_get r ''password'' \<and>
            (\<exists>it. map_of (group_rows later (process_row r g)) n = Some it \<and>
                  login_password (item_login it) = row_get r ''password'')"
      using step by (simp add: merge_all_frame create_item_credentials)
  qed
  have joined: "\<forall>it. map_of g n = Some it \<longrightarrow>
            process_row r g = AList.update n (merge_row it u un (row_get r ''password'')) g \<and>
            (item_notes (merge_row it u un (row_get r ''password'')) \<noteq> item_notes it \<longleftrightarrow>
               login_username (item_login it) \<noteq> un \<or>
               login_password (item_login it) \<noteq> row_get r ''password'')"
  proof (intro allI impI)
    fix it assume some: "map_of g n = Some it"
    have step: "process_row r g = AList.update n (merge_row it u un (row_get r ''password'')) g"
      using process_row_existing [OF assms(1,2) some] by (simp add: merge_one_def assms(3,4))
    have "item_notes (merge_row it u un (row_get r ''password'')) \<noteq> item_notes it \<longleftrightarrow>
               login_username (item_login it) \<noteq> un \<or>
               login_password (item_login it) \<noteq> row_get r ''password''"
      unfolding merge_row_notes using annotated_notes_differ [of "item_notes it" u un] by auto
    then show "process_row r g = AList.update n (merge_row it u un (row_get r ''password'')) g \<and>
            (item_notes (merge_row it u un (row_get r ''password'')) \<noteq> item_notes it \<longleftrightarrow>
               login_username (item_login it) \<noteq> un \<or>
               login_password (item_login it) \<noteq> row_get r ''password'')"
      using step by simp
  qed
  show ?thesis using cell fresh joined by blast
qed

theorem row_without_password_witness:
  "process_row short_line [] = [(''Google'', create_item short_line)] \<and>
   login_password (item_login (create_item short_line)) = None \<and>
   process_row empty_password [] = [(''Google'', create_item empty_password)] \<and>
   login_password (item_login (create_item empty_password)) = Some [] \<and>
   (\<exists>it. map_of (group_rows [google_second] (process_row empty_password [])) ''Google'' = Some it \<and>
         login_password (item_login it) = Some []) \<and>
   item_notes (merge_row (create_item empty_password) ''https://a.com'' ''u1'' None) \<noteq> None"
proof -
  have f: "\<not> truthy (row_get short_line ''password'')" "\<not> truthy (row_get empty_password ''password'')"
    by (simp_all add: short_line_cells empty_password_cells truthy_def)
  have g0: "map_of ([] :: grouped_items) ''Google'' = None" by simp
  have g1: "map_of [(''Google'', create_item empty_password)] ''Google'' = Some (create_item empty_password)"
    by simp
  have n: "item_notes (create_item empty_password) = None"
    by (simp add: create_item_def new_item_def empty_password_cells truthy_def)
  show ?thesis
    using row_without_password [OF short_line_cells(6) short_line_cells(1) short_line_cells(2)
        short_line_cells(3) f(1), of "[]" "[]"]
      row_without_password [OF empty_password_cells(6) empty_password_cells(1) empty_password_cells(2)
        empty_password_cells(3) f(2), of "[]" "[google_second]"]
      row_without_password [OF short_line_cells(6) short_line_cells(1) short_line_cells(2)
        short_line_cells(3) f(1), of "[(''Google'', create_item empty_password)]" "[]"]
      g0 g1 n
    by (auto simp: short_line_cells empty_password_cells create_item_credentials)
qed

end
